theory Spec2Isabelle
  imports Main
begin

section \<open>Errors, bytes and base64\<close>

text \<open>
  Go strings and byte slices are both sequences of bytes; a HOL \<open>char\<close> is one byte, so
  both are modelled as \<open>string\<close> and the conversions \<open>[]byte(s)\<close> and \<open>string(b)\<close> are
  the identity.
\<close>

type_synonym bytes = string

text \<open>
  The errors built in \<open>pkg/database/database.go\<close> with \<open>fmt.Errorf\<close>, one constructor per
  message; an error wrapped with \<open>%w\<close> is an argument. \<open>External\<close> is an error handed
  back by a collaborator (key manager, cacher, hash function, the operation being retried).
\<close>

datatype error =
    External string
  | NoHMACKey
  | NoColumn string string
  | CannotInterface string string
  | ReusePlaintextFailed error
  | ReuseCiphertextFailed error
  | InvalidCiphertext string
  | DecryptFailed string error
  | EncryptFailed string error
  | SetColumnFailed string error
  | HMACFailed string error
  | FieldNotValid
  | Unaddressable
  | CouldNotConvert string
  | NilPointerDereference
  | ReflectInvalidValue
  | BackoffNotPositive
  | ConfigureBackoff error
  | ContextDone

definition encodeStd :: string where
  "encodeStd = ''ABCDEFGHIJKLMNOPQRSTUVWXYZabcdefghijklmnopqrstuvwxyz0123456789+/''"

definition encodeURL :: string where
  "encodeURL = ''ABCDEFGHIJKLMNOPQRSTUVWXYZabcdefghijklmnopqrstuvwxyz0123456789-_''"

text \<open>
  \<open>encoding/base64\<close> without padding: every three bytes give four characters of the
  alphabet, a rest of two bytes gives three characters and a rest of one byte gives two.
\<close>

fun EncodeToString :: "string \<Rightarrow> bytes \<Rightarrow> string" where
  "EncodeToString al (a # b # c # rest) =
     [al ! (of_char a div 4),
      al ! ((of_char a mod 4) * 16 + of_char b div 16),
      al ! ((of_char b mod 16) * 4 + of_char c div 64),
      al ! (of_char c mod 64)] @ EncodeToString al rest"
| "EncodeToString al [a, b] =
     [al ! (of_char a div 4),
      al ! ((of_char a mod 4) * 16 + of_char b div 16),
      al ! ((of_char b mod 16) * 4)]"
| "EncodeToString al [a] =
     [al ! (of_char a div 4),
      al ! ((of_char a mod 4) * 16)]"
| "EncodeToString al [] = []"

definition RawStdEncoding :: "bytes \<Rightarrow> string" where
  "RawStdEncoding = EncodeToString encodeStd"

definition RawURLEncoding :: "bytes \<Rightarrow> string" where
  "RawURLEncoding = EncodeToString encodeURL"

section \<open>HMAC signer\<close>

text \<open>
  \<open>hmac.New(sha512.New, key)\<close>, \<open>Write(data)\<close> and \<open>Sum(nil)\<close> come from the Go
  standard library. They are one parameter \<open>mac key data\<close>: \<open>Inl\<close> the error of
  \<open>Write\<close>, \<open>Inr\<close> the digest.
\<close>

type_synonym mac = "bytes \<Rightarrow> bytes \<Rightarrow> error + bytes"

definition initialHMAC :: "mac \<Rightarrow> bytes list \<Rightarrow> string \<Rightarrow> error + string" where
  "initialHMAC sig keys data =
     (if length keys < 1 then Inl NoHMACKey
      else case sig (keys ! 0) data of
             Inl err \<Rightarrow> Inl err
           | Inr digest \<Rightarrow> Inr (RawURLEncoding digest))"

fun allAllowedHMACs_loop :: "mac \<Rightarrow> bytes list \<Rightarrow> string \<Rightarrow> string list \<Rightarrow> error + string list" where
  "allAllowedHMACs_loop sig [] data sigs = Inr sigs"
| "allAllowedHMACs_loop sig (key # keys) data sigs =
     (case sig key data of
        Inl err \<Rightarrow> Inl err
      | Inr digest \<Rightarrow> allAllowedHMACs_loop sig keys data (sigs @ [RawURLEncoding digest]))"

definition allAllowedHMACs :: "mac \<Rightarrow> bytes list \<Rightarrow> string \<Rightarrow> error + string list" where
  "allAllowedHMACs sig keys data = allAllowedHMACs_loop sig keys data []"

text \<open>A keyed function that never fails, used to run the signer on concrete keys.\<close>

definition prefixMAC :: mac where
  "prefixMAC key data = Inr (key @ data)"

section \<open>Records in flight: the persistence layer's scope\<close>

text \<open>
  What \<open>field.Field.Interface()\<close> can give for a column: the nil interface, a string,
  an unsigned integer, or a pointer to a string (nil, or an address and the string there).
\<close>

datatype val = VNil | VStr string | VUint nat | VNilStrPtr | VStrPtr nat string

text \<open>
  A \<open>gorm.Field\<close>: the struct field's name, its column name, and the reflected value with
  the three flags the callbacks ask for. On a scope over one record every field is valid;
  on a scope over a slice of records gorm leaves the reflected value invalid.
\<close>

record field =
  Name :: string
  DBName :: string
  IsValid :: bool
  CanInterface :: bool
  CanAddr :: bool
  Interface :: val

record cache_key =
  Namespace :: string
  Key :: string

datatype logline =
    SkippingNotString string string
  | SkippingBlank string string
  | FailedToDeleteCacheKey error
  | ClearedCacheFor cache_key

text \<open>
  A \<open>gorm.Scope\<close>: the table, the fields of the record, the errors added with
  \<open>scope.Err\<close>, the lines written with \<open>scope.Log\<close>, and the next free address for a
  pointer that \<open>Field.Set\<close> has to allocate.
\<close>

record scope =
  TableName :: string
  Fields :: "field list"
  Errors :: "error list"
  Logged :: "logline list"
  NextAddr :: nat

definition HasError :: "scope \<Rightarrow> bool" where
  "HasError scope = (Errors scope \<noteq> [])"

definition Err :: "scope \<Rightarrow> error \<Rightarrow> scope" where
  "Err scope err = scope\<lparr>Errors := Errors scope @ [err]\<rparr>"

definition Log :: "scope \<Rightarrow> logline \<Rightarrow> scope" where
  "Log scope line = scope\<lparr>Logged := Logged scope @ [line]\<rparr>"

text \<open>
  \<open>scope.FieldByName\<close>: the first field whose struct name or column name is the given
  name; the result is the position of the field, \<open>None\<close> for the nil pointer. (gorm falls
  back to the field whose column name is the snake-case form of the name; the callbacks
  are registered with names that are struct names or column names as they stand.)
\<close>

fun fieldIndex :: "string \<Rightarrow> field list \<Rightarrow> nat option" where
  "fieldIndex name [] = None"
| "fieldIndex name (f # fs) =
     (if Name f = name \<or> DBName f = name then Some 0
      else map_option Suc (fieldIndex name fs))"

definition FieldByName :: "scope \<Rightarrow> string \<Rightarrow> nat option" where
  "FieldByName scope name = fieldIndex name (Fields scope)"

definition getFieldString :: "scope \<Rightarrow> string \<Rightarrow> nat option \<times> string \<times> bool" where
  "getFieldString scope name =
     (case FieldByName scope name of
        None \<Rightarrow> (None, [], False)
      | Some i \<Rightarrow>
          (let field = Fields scope ! i in
           if \<not> IsValid field then (Some i, [], False)
           else if \<not> CanInterface field then (Some i, [], False)
           else case Interface field of
                  VNil \<Rightarrow> (Some i, [], False)
                | VStr typ \<Rightarrow> (Some i, typ, True)
                | _ \<Rightarrow> (Some i, [], False)))"

text \<open>
  \<open>Field.Set\<close> with a string argument, as gorm does it: an invalid or unaddressable
  field is an error; a string field (or an empty-interface field) takes the string; a
  pointer to a string is allocated when nil and then takes the string; any other field
  cannot be converted. The callbacks never call it through a nil pointer.
\<close>

definition setInterface :: "scope \<Rightarrow> nat \<Rightarrow> val \<Rightarrow> scope" where
  "setInterface scope i v = scope\<lparr>Fields := (Fields scope)[i := (Fields scope ! i)\<lparr>Interface := v\<rparr>]\<rparr>"

definition Field_Set :: "scope \<Rightarrow> nat option \<Rightarrow> string \<Rightarrow> error option \<times> scope" where
  "Field_Set scope fld v =
     (case fld of
        None \<Rightarrow> (Some NilPointerDereference, scope)
      | Some i \<Rightarrow>
          (let field = Fields scope ! i in
           if \<not> IsValid field then (Some FieldNotValid, scope)
           else if \<not> CanAddr field then (Some Unaddressable, scope)
           else case Interface field of
                  VStr _ \<Rightarrow> (None, setInterface scope i (VStr v))
                | VNil \<Rightarrow> (None, setInterface scope i (VStr v))
                | VStrPtr a _ \<Rightarrow> (None, setInterface scope i (VStrPtr a v))
                | VNilStrPtr \<Rightarrow>
                    (None, (setInterface scope i (VStrPtr (NextAddr scope) v))
                             \<lparr>NextAddr := Suc (NextAddr scope)\<rparr>)
                | VUint _ \<Rightarrow> (Some (CouldNotConvert (Name field)), scope)))"

definition fieldName :: "scope \<Rightarrow> nat option \<Rightarrow> string" where
  "fieldName scope fld = (case fld of None \<Rightarrow> [] | Some i \<Rightarrow> Name (Fields scope ! i))"

section \<open>Collaborators and their calls\<close>

text \<open>
  Every call to a collaborator is recorded, in order. A collaborator answers from the
  calls made so far and the arguments, so a key manager may be randomised or stateful.
  The associated data of \<open>Encrypt\<close> and \<open>Decrypt\<close> is always nil in this file and is
  left out.
\<close>

datatype event =
    EncryptCall string bytes
  | DecryptCall string bytes
  | HashCall string
  | DeleteCall cache_key

record keyManager =
  Encrypt :: "event list \<Rightarrow> string \<Rightarrow> bytes \<Rightarrow> error + bytes"
  Decrypt :: "event list \<Rightarrow> string \<Rightarrow> bytes \<Rightarrow> error + bytes"

text \<open>
  Modelled from the spec: the cache collaborator of \<open>pkg/cache\<close>, of which only the
  call in \<open>callbackPurgeCache\<close> is at hand; section 6 of the specification gives
  \<open>Delete(namespace, key) \<rightarrow> ok | CacheError\<close>.
\<close>

record cacher =
  Delete :: "event list \<Rightarrow> cache_key \<Rightarrow> error option"

type_synonym hashFunc = "event list \<Rightarrow> string \<Rightarrow> error + string"

type_synonym state = "scope \<times> event list"

section \<open>Field encryption pipeline\<close>

text \<open>
  The four writes that end \<open>callbackKMSEncrypt\<close>: the real column (\<open>hasRealField\<close> is
  true there), the pointer column (whose failure is recorded without returning), and the
  two cache columns.
\<close>

definition encryptStore ::
  "string \<Rightarrow> string \<Rightarrow> nat option \<Rightarrow> nat option \<Rightarrow> nat option \<Rightarrow> bool \<Rightarrow> nat option \<Rightarrow> bool \<Rightarrow> scope \<Rightarrow> scope" where
  "encryptStore plaintext ciphertext realField ptrField plaintextCacheField hasPlaintextCache
       ciphertextCacheField hasCiphertextCache scope =
     (case Field_Set scope realField ciphertext of
        (Some err, scope) \<Rightarrow> Err scope (SetColumnFailed (fieldName scope realField) err)
      | (None, scope) \<Rightarrow>
          (let scope =
             (if ptrField \<noteq> None then
                (case Field_Set scope ptrField ciphertext of
                   (Some err, scope) \<Rightarrow> Err scope (SetColumnFailed (fieldName scope ptrField) err)
                 | (None, scope) \<Rightarrow> scope)
              else scope)
           in case (if hasPlaintextCache then Field_Set scope plaintextCacheField plaintext
                    else (None, scope)) of
                (Some err, scope) \<Rightarrow>
                  Err scope (SetColumnFailed (fieldName scope plaintextCacheField) err)
              | (None, scope) \<Rightarrow>
                  (case (if hasCiphertextCache then Field_Set scope ciphertextCacheField ciphertext
                         else (None, scope)) of
                     (Some err, scope) \<Rightarrow>
                       Err scope (SetColumnFailed (fieldName scope ciphertextCacheField) err)
                   | (None, scope) \<Rightarrow> scope)))"

definition callbackKMSEncrypt :: "keyManager \<Rightarrow> string \<Rightarrow> string \<Rightarrow> string \<Rightarrow> state \<Rightarrow> state" where
  "callbackKMSEncrypt keyManager keyID table column st =
     (case st of (scope, tr) \<Rightarrow>
        if TableName scope \<noteq> table then st
        else if HasError scope then st
        else
          (case getFieldString scope column of (realField, plaintext, hasRealField) \<Rightarrow>
             if \<not> hasRealField then (Log scope (SkippingNotString ''encryption'' column), tr)
             else if plaintext = [] then (Log scope (SkippingBlank ''encryption'' column), tr)
             else
               (case getFieldString scope (column @ ''PlaintextCache'') of
                  (plaintextCacheField, plaintextCache, hasPlaintextCache) \<Rightarrow>
                (case getFieldString scope (column @ ''CiphertextCache'') of
                  (ciphertextCacheField, ciphertextCache, hasCiphertextCache) \<Rightarrow>
                (case getFieldString scope (column @ ''Ptr'') of (ptrField, _, _) \<Rightarrow>
                (case (if hasPlaintextCache \<and> hasCiphertextCache \<and> plaintext = plaintextCache
                       then Field_Set scope realField ciphertextCache else (None, scope)) of
                   (Some err, scope) \<Rightarrow> (Err scope (ReuseCiphertextFailed err), tr)
                 | (None, scope) \<Rightarrow>
                     (case Encrypt keyManager tr keyID plaintext of
                        Inl err \<Rightarrow>
                          (Err scope (EncryptFailed column err), tr @ [EncryptCall keyID plaintext])
                      | Inr b \<Rightarrow>
                          (encryptStore plaintext (RawStdEncoding b) realField ptrField
                             plaintextCacheField hasPlaintextCache
                             ciphertextCacheField hasCiphertextCache scope,
                           tr @ [EncryptCall keyID plaintext]))))))))"

text \<open>
  The four writes that end \<open>callbackKMSDecrypt\<close>; here every failure returns.
\<close>

definition decryptStore ::
  "string \<Rightarrow> string \<Rightarrow> nat option \<Rightarrow> nat option \<Rightarrow> nat option \<Rightarrow> bool \<Rightarrow> nat option \<Rightarrow> bool \<Rightarrow> scope \<Rightarrow> scope" where
  "decryptStore plaintext ciphertext realField ptrField plaintextCacheField hasPlaintextCache
       ciphertextCacheField hasCiphertextCache scope =
     (case Field_Set scope realField plaintext of
        (Some err, scope) \<Rightarrow> Err scope (SetColumnFailed (fieldName scope realField) err)
      | (None, scope) \<Rightarrow>
          (case (if ptrField \<noteq> None then Field_Set scope ptrField plaintext else (None, scope)) of
             (Some err, scope) \<Rightarrow> Err scope (SetColumnFailed (fieldName scope ptrField) err)
           | (None, scope) \<Rightarrow>
               (case (if hasPlaintextCache then Field_Set scope plaintextCacheField plaintext
                      else (None, scope)) of
                  (Some err, scope) \<Rightarrow>
                    Err scope (SetColumnFailed (fieldName scope plaintextCacheField) err)
                | (None, scope) \<Rightarrow>
                    (case (if hasCiphertextCache then Field_Set scope ciphertextCacheField ciphertext
                           else (None, scope)) of
                       (Some err, scope) \<Rightarrow>
                         Err scope (SetColumnFailed (fieldName scope ciphertextCacheField) err)
                     | (None, scope) \<Rightarrow> scope))))"

text \<open>
  \<open>base64util.DecodeString\<close> belongs to another module and is the parameter \<open>decode\<close>.
\<close>

definition callbackKMSDecrypt ::
  "keyManager \<Rightarrow> (string \<Rightarrow> error + bytes) \<Rightarrow> string \<Rightarrow> string \<Rightarrow> string \<Rightarrow> state \<Rightarrow> state" where
  "callbackKMSDecrypt keyManager decode keyID table column st =
     (case st of (scope, tr) \<Rightarrow>
        if TableName scope \<noteq> table then st
        else if HasError scope then st
        else
          (case getFieldString scope column of (realField, ciphertext, hasRealField) \<Rightarrow>
             if \<not> hasRealField then (Log scope (SkippingNotString ''decryption'' column), tr)
             else if ciphertext = [] then (Log scope (SkippingBlank ''decryption'' column), tr)
             else
               (case getFieldString scope (column @ ''PlaintextCache'') of
                  (plaintextCacheField, plaintextCache, hasPlaintextCache) \<Rightarrow>
                (case getFieldString scope (column @ ''CiphertextCache'') of
                  (ciphertextCacheField, ciphertextCache, hasCiphertextCache) \<Rightarrow>
                (case getFieldString scope (column @ ''Ptr'') of (ptrField, _, _) \<Rightarrow>
                (case (if hasPlaintextCache \<and> hasCiphertextCache \<and> ciphertext = ciphertextCache
                       then Field_Set scope realField plaintextCache else (None, scope)) of
                   (Some err, scope) \<Rightarrow> (Err scope (ReusePlaintextFailed err), tr)
                 | (None, scope) \<Rightarrow>
                     (case decode ciphertext of
                        Inl err \<Rightarrow> (Err scope (InvalidCiphertext column), tr)
                      | Inr ciphertextBytes \<Rightarrow>
                          (case Decrypt keyManager tr keyID ciphertextBytes of
                             Inl err \<Rightarrow>
                               (Err scope (DecryptFailed column err),
                                tr @ [DecryptCall keyID ciphertextBytes])
                           | Inr plaintextBytes \<Rightarrow>
                               (decryptStore plaintextBytes ciphertext realField ptrField
                                  plaintextCacheField hasPlaintextCache
                                  ciphertextCacheField hasCiphertextCache scope,
                                tr @ [DecryptCall keyID ciphertextBytes])))))))))"

text \<open>
  \<open>callbackHMAC\<close>. When the column is not on the record, \<open>field\<close> is the nil pointer and
  the log line reads \<open>field.Name\<close> through it: the callback panics, which is \<open>Inl\<close>.
\<close>

definition callbackHMAC :: "hashFunc \<Rightarrow> string \<Rightarrow> string \<Rightarrow> state \<Rightarrow> error + state" where
  "callbackHMAC hashFunc table column st =
     (case st of (scope, tr) \<Rightarrow>
        if TableName scope \<noteq> table then Inr st
        else if HasError scope then Inr st
        else
          (case getFieldString scope column of
             (None, _, _) \<Rightarrow> Inl NilPointerDereference
           | (Some i, val, ok) \<Rightarrow>
               (let fname = Name (Fields scope ! i) in
                if \<not> ok then Inr (Log scope (SkippingNotString ''HMAC'' fname), tr)
                else if val = [] then Inr (Log scope (SkippingBlank ''HMAC'' fname), tr)
                else
                  (case hashFunc tr val of
                     Inl err \<Rightarrow> Inr (Err scope (HMACFailed fname err), tr @ [HashCall val])
                   | Inr sig \<Rightarrow>
                       (case Field_Set scope (Some i) sig of
                          (Some err, scope) \<Rightarrow>
                            Inr (Err scope (SetColumnFailed fname err), tr @ [HashCall val])
                        | (None, scope) \<Rightarrow> Inr (scope, tr @ [HashCall val]))))))"

section \<open>Cache invalidator\<close>

text \<open>\<open>strconv\<close>-style digits of a number in a base, for \<open>%v\<close> of integers and addresses.\<close>

function FormatUint :: "nat \<Rightarrow> nat \<Rightarrow> string" where
  "FormatUint n base =
     (if base < 2 \<or> n < base then [''0123456789abcdef'' ! n]
      else FormatUint (n div base) base @ [''0123456789abcdef'' ! (n mod base)])"
  by pat_completeness auto
termination
  by (relation "measure fst") auto

text \<open>\<open>fmt.Sprintf("%v", val)\<close> on the values a column can hold.\<close>

fun Sprintf_v :: "val \<Rightarrow> string" where
  "Sprintf_v VNil = ''<nil>''"
| "Sprintf_v (VStr s) = s"
| "Sprintf_v (VUint n) = FormatUint n 10"
| "Sprintf_v VNilStrPtr = ''<nil>''"
| "Sprintf_v (VStrPtr a s) = ''0x'' @ FormatUint a 16"

fun Join :: "string list \<Rightarrow> string \<Rightarrow> string" where
  "Join [] sep = []"
| "Join [x] sep = x"
| "Join (x # y # ys) sep = x @ sep @ Join (y # ys) sep"

text \<open>
  The loop over the columns of \<open>callbackPurgeCache\<close> ends in one of three ways: it
  panics (\<open>CanInterface\<close> of an invalid reflected value), it returns from the callback
  with the scope as it then is, or it falls through with the collected keys.
\<close>

datatype collected = Panicked error | Returned scope | Collected "string list"

fun purgeKeys :: "string \<Rightarrow> scope \<Rightarrow> string list \<Rightarrow> string list \<Rightarrow> collected" where
  "purgeKeys table scope [] keys = Collected keys"
| "purgeKeys table scope (column # columns) keys =
     (case FieldByName scope column of
        None \<Rightarrow> Returned (Err scope (NoColumn table column))
      | Some i \<Rightarrow>
          (let field = Fields scope ! i in
           if \<not> IsValid field then Panicked ReflectInvalidValue
           else if \<not> CanInterface field then Returned (Err scope (CannotInterface table column))
           else if Interface field = VNil then Returned scope
           else purgeKeys table scope columns (keys @ [Sprintf_v (Interface field)])))"

definition callbackPurgeCache ::
  "cacher \<Rightarrow> string \<Rightarrow> string \<Rightarrow> string list \<Rightarrow> state \<Rightarrow> error + state" where
  "callbackPurgeCache cacher namespace table columns st =
     (case st of (scope, tr) \<Rightarrow>
        if TableName scope \<noteq> table then Inr st
        else if HasError scope then Inr st
        else
          (case purgeKeys table scope columns [] of
             Panicked e \<Rightarrow> Inl e
           | Returned scope \<Rightarrow> Inr (scope, tr)
           | Collected keys \<Rightarrow>
               (let key = \<lparr>Namespace = namespace, Key = Join keys ''|''\<rparr> in
                case Delete cacher tr key of
                  Some err \<Rightarrow> Inr (Log scope (FailedToDeleteCacheKey err), tr @ [DeleteCall key])
                | None \<Rightarrow> Inr (Log scope (ClearedCacheFor key), tr @ [DeleteCall key]))))"

section \<open>Retry wrapper\<close>

text \<open>
  \<open>withRetries\<close> is three calls into the \<open>go-retry\<close> module, modelled here as that module
  documents them. \<open>NewConstant t\<close> refuses a duration that is not positive.
  \<open>WithMaxRetries max next\<close> counts the calls of \<open>Next\<close>: it stops once \<open>max\<close> waits have
  been handed out. \<open>Do\<close> runs the operation, returns on success and on an error that is
  not marked retryable, and otherwise asks the backoff: on stop it returns the unwrapped
  error, else it waits and runs the operation again, unless the context is done first.
\<close>

definition Second :: int where
  "Second = 1000000000"

definition NewConstant :: "int \<Rightarrow> error + int" where
  "NewConstant t = (if t \<le> 0 then Inl BackoffNotPositive else Inr t)"

record backoff =
  attempt :: nat
  maxRetries :: nat
  delay :: int

definition WithMaxRetries :: "nat \<Rightarrow> int \<Rightarrow> backoff" where
  "WithMaxRetries m d = \<lparr>attempt = 0, maxRetries = m, delay = d\<rparr>"

definition Next :: "backoff \<Rightarrow> (int \<times> bool) \<times> backoff" where
  "Next b =
     (if attempt b \<ge> maxRetries b then ((0, True), b)
      else ((delay b, False), b\<lparr>attempt := Suc (attempt b)\<rparr>))"

text \<open>
  What one run of the operation gives: nil, an error wrapped by \<open>retry.RetryableError\<close>,
  or any other error. The operation is a function of the number of runs before it.
\<close>

datatype outcome = Succeeded | Retryable error | Failed error

record retried =
  result :: "error option"
  attempts :: nat
  waits :: "int list"

text \<open>
  \<open>ctxDone n\<close>: the context is done during the wait after run \<open>n\<close> (counted from 0).
\<close>

function Do :: "(nat \<Rightarrow> bool) \<Rightarrow> backoff \<Rightarrow> (nat \<Rightarrow> outcome) \<Rightarrow> nat \<Rightarrow> int list \<Rightarrow> retried" where
  "Do ctxDone b f n slept =
     (case f n of
        Succeeded \<Rightarrow> \<lparr>result = None, attempts = Suc n, waits = slept\<rparr>
      | Failed err \<Rightarrow> \<lparr>result = Some err, attempts = Suc n, waits = slept\<rparr>
      | Retryable err \<Rightarrow>
          (case Next b of
             ((d, True), b') \<Rightarrow> \<lparr>result = Some err, attempts = Suc n, waits = slept\<rparr>
           | ((d, False), b') \<Rightarrow>
               if ctxDone n then \<lparr>result = Some ContextDone, attempts = Suc n, waits = slept\<rparr>
               else Do ctxDone b' f (Suc n) (slept @ [d])))"
  by pat_completeness auto
termination
  by (relation "measure (\<lambda>(ctxDone, b, f, n, slept). maxRetries b - attempt b)")
     (auto simp: Next_def split: if_splits)

definition withRetries :: "(nat \<Rightarrow> bool) \<Rightarrow> (nat \<Rightarrow> outcome) \<Rightarrow> retried" where
  "withRetries ctxDone f =
     (case NewConstant (1 * Second) of
        Inl err \<Rightarrow> \<lparr>result = Some (ConfigureBackoff err), attempts = 0, waits = []\<rparr>
      | Inr b \<Rightarrow> Do ctxDone (WithMaxRetries 30 b) f 0 [])"

section \<open>States of a column, and concrete records and collaborators\<close>

text \<open>
  A scope over one record: every field has a valid reflected value.
\<close>

definition overRecord :: "scope \<Rightarrow> bool" where
  "overRecord scope = list_all IsValid (Fields scope)"


definition holdsNil :: "scope \<Rightarrow> string \<Rightarrow> bool" where
  "holdsNil scope column =
     (case FieldByName scope column of
        None \<Rightarrow> False
      | Some i \<Rightarrow> CanInterface (Fields scope ! i) \<and> Interface (Fields scope ! i) = VNil)"

definition readable :: "scope \<Rightarrow> string \<Rightarrow> bool" where
  "readable scope column =
     (case FieldByName scope column of
        None \<Rightarrow> False
      | Some i \<Rightarrow> CanInterface (Fields scope ! i) \<and> Interface (Fields scope ! i) \<noteq> VNil)"

definition columnText :: "scope \<Rightarrow> string \<Rightarrow> string" where
  "columnText scope column =
     (case FieldByName scope column of
        None \<Rightarrow> []
      | Some i \<Rightarrow> Sprintf_v (Interface (Fields scope ! i)))"

text \<open>The column is a readable string column of the record and holds \<open>s\<close>.\<close>

definition holdsString :: "scope \<Rightarrow> string \<Rightarrow> string \<Rightarrow> bool" where
  "holdsString scope column s =
     (case FieldByName scope column of
        None \<Rightarrow> False
      | Some i \<Rightarrow> IsValid (Fields scope ! i) \<and> CanInterface (Fields scope ! i)
                  \<and> Interface (Fields scope ! i) = VStr s)"

text \<open>An exported, addressable field of a record.\<close>

definition recordField :: "string \<Rightarrow> string \<Rightarrow> val \<Rightarrow> field" where
  "recordField name dbname v =
     \<lparr>Name = name, DBName = dbname, IsValid = True, CanInterface = True, CanAddr = True,
      Interface = v\<rparr>"

text \<open>
  A row of \<open>sms_configs\<close> with the encrypted column \<open>TwilioAuthToken\<close> and its two cache
  columns.
\<close>

definition smsConfig :: "string \<Rightarrow> string \<Rightarrow> string \<Rightarrow> scope" where
  "smsConfig token plaintextCache ciphertextCache =
     \<lparr>TableName = ''sms_configs'',
      Fields = [recordField ''ID'' ''id'' (VUint 7),
                recordField ''TwilioAuthToken'' ''twilio_auth_token'' (VStr token),
                recordField ''TwilioAuthTokenPlaintextCache'' ''twilio_auth_token_plaintext_cache''
                  (VStr plaintextCache),
                recordField ''TwilioAuthTokenCiphertextCache'' ''twilio_auth_token_ciphertext_cache''
                  (VStr ciphertextCache)],
      Errors = [], Logged = [], NextAddr = 0\<rparr>"

text \<open>A row of \<open>verification_codes\<close> with the signed column \<open>code\<close>.\<close>

definition verificationCode :: "string \<Rightarrow> scope" where
  "verificationCode code =
     \<lparr>TableName = ''verification_codes'',
      Fields = [recordField ''ID'' ''id'' (VUint 3), recordField ''Code'' ''code'' (VStr code)],
      Errors = [], Logged = [], NextAddr = 0\<rparr>"

text \<open>A row of \<open>realms\<close> with its identifier.\<close>

definition realm :: "nat \<Rightarrow> scope" where
  "realm n =
     \<lparr>TableName = ''realms'',
      Fields = [recordField ''ID'' ''id'' (VUint n), recordField ''Name'' ''name'' (VStr ''Test'')],
      Errors = [], Logged = [], NextAddr = 0\<rparr>"


text \<open>
  Key managers to run the callbacks with: one that answers every call (its ciphertext is
  the key identifier, a colon and the plaintext), one whose ciphertext starts with a byte
  that changes with every call, and one that fails every call.
\<close>

definition tagKM :: keyManager where
  "tagKM =
     \<lparr>Encrypt = (\<lambda>tr keyID plaintext. Inr (keyID @ '':'' @ plaintext)),
      Decrypt = (\<lambda>tr keyID ciphertext.
                   if take (length keyID + 1) ciphertext = keyID @ '':''
                   then Inr (drop (length keyID + 1) ciphertext)
                   else Inl (External ''wrong key''))\<rparr>"

definition nonceKM :: keyManager where
  "nonceKM =
     \<lparr>Encrypt = (\<lambda>tr keyID plaintext. Inr (char_of (length tr) # keyID @ '':'' @ plaintext)),
      Decrypt = (\<lambda>tr keyID ciphertext.
                   if take (length keyID + 1) (tl ciphertext) = keyID @ '':''
                   then Inr (drop (length keyID + 2) ciphertext)
                   else Inl (External ''wrong key''))\<rparr>"

definition downKM :: keyManager where
  "downKM =
     \<lparr>Encrypt = (\<lambda>tr keyID plaintext. Inl (External ''key manager unavailable'')),
      Decrypt = (\<lambda>tr keyID ciphertext. Inl (External ''key manager unavailable''))\<rparr>"


definition downCacher :: cacher where
  "downCacher = \<lparr>Delete = (\<lambda>tr key. Some (External ''cache unavailable''))\<rparr>"

definition okHash :: hashFunc where
  "okHash tr v = initialHMAC prefixMAC [''kNew'', ''kOld''] v"

text \<open>
  A decoder to run \<open>callbackKMSDecrypt\<close> with: standard base64, unpadded or padded to a
  multiple of four characters.
\<close>

fun sextet :: "string \<Rightarrow> char \<Rightarrow> nat option" where
  "sextet [] c = None"
| "sextet (a # al) c = (if a = c then Some 0 else map_option Suc (sextet al c))"

fun decodeQuanta :: "nat option list \<Rightarrow> bytes option" where
  "decodeQuanta (Some a # Some b # Some c # Some d # rest) =
     map_option (\<lambda>bs. char_of (a * 4 + b div 16) # char_of ((b mod 16) * 16 + c div 4)
                       # char_of ((c mod 4) * 64 + d) # bs) (decodeQuanta rest)"
| "decodeQuanta [Some a, Some b, Some c] =
     Some [char_of (a * 4 + b div 16), char_of ((b mod 16) * 16 + c div 4)]"
| "decodeQuanta [Some a, Some b] = Some [char_of (a * 4 + b div 16)]"
| "decodeQuanta [] = Some []"
| "decodeQuanta _ = None"

definition DecodeString :: "string \<Rightarrow> error + bytes" where
  "DecodeString s =
     (let body = takeWhile (\<lambda>c. c \<noteq> CHR ''='') s;
          pad = dropWhile (\<lambda>c. c \<noteq> CHR ''='') s
      in if pad = [] \<or> ((pad = ''='' \<or> pad = ''=='') \<and> length s mod 4 = 0)
         then (case decodeQuanta (map (sextet encodeStd) body) of
                 None \<Rightarrow> Inl (External ''illegal base64 data'')
               | Some b \<Rightarrow> Inr b)
         else Inl (External ''illegal base64 data''))"

text \<open>
  Between two writes the caller assigns the column again: \<open>record.Column = v\<close>.
\<close>

definition assign :: "string \<Rightarrow> string \<Rightarrow> state \<Rightarrow> state" where
  "assign name v st =
     (case st of (scope, tr) \<Rightarrow>
        (case FieldByName scope name of
           None \<Rightarrow> st
         | Some i \<Rightarrow> (setInterface scope i (VStr v), tr)))"

text \<open>
  One write of the token of an \<open>sms_configs\<close> row: the caller assigns the plaintext and
  saves, which runs the encryption callback registered before create and update.
\<close>

definition writeToken :: "keyManager \<Rightarrow> string \<Rightarrow> state \<Rightarrow> state" where
  "writeToken keyManager v st =
     callbackKMSEncrypt keyManager ''k1'' ''sms_configs'' ''TwilioAuthToken''
       (assign ''TwilioAuthToken'' v st)"

text \<open>Operations to retry: one that never succeeds, one that fails for good on run 2.\<close>

definition alwaysRetryable :: "nat \<Rightarrow> outcome" where
  "alwaysRetryable n = Retryable (External ''connection refused'')"

definition failsAtThird :: "nat \<Rightarrow> outcome" where
  "failsAtThird n = (if n < 2 then Retryable (External ''connection refused'')
                     else Failed (External ''bad credentials''))"

definition neverDone :: "nat \<Rightarrow> bool" where
  "neverDone n = False"

section \<open>Properties of the signer\<close>

lemma of_char_lt: "(of_char c :: nat) < 256"
  by (metis of_char_mod_256 mod_less_divisor zero_less_numeral)

lemma sextets:
  fixes a b c :: nat
  assumes "a < 256" "b < 256" "c < 256"
  shows "a div 4 < 64" "(a mod 4) * 16 + b div 16 < 64" "(b mod 16) * 4 + c div 64 < 64"
    "c mod 64 < 64" "(a mod 4) * 16 < 64" "(b mod 16) * 4 < 64"
  using assms by linarith+

lemma EncodeToString_alphabet:
  "length al = 64 \<Longrightarrow> set (EncodeToString al bs) \<subseteq> set al"
proof (induction al bs rule: EncodeToString.induct)
  case (1 al a b c rest)
  then show ?case using sextets[OF of_char_lt[of a] of_char_lt[of b] of_char_lt[of c]]
    by simp
next
  case (2 al a b)
  then show ?case using sextets[OF of_char_lt[of a] of_char_lt[of b] of_char_lt[of b]]
    by simp
next
  case (3 al a)
  then show ?case using sextets[OF of_char_lt[of a] of_char_lt[of a] of_char_lt[of a]]
    by simp
next
  case (4 al)
  then show ?case by simp
qed

lemma EncodeToString_length:
  "length (EncodeToString al bs) = (4 * length bs + 2) div 3"
  by (induction al bs rule: EncodeToString.induct) simp_all

lemma RawURLEncoding_alphabet: "set (RawURLEncoding digest) \<subseteq> set encodeURL"
  unfolding RawURLEncoding_def by (rule EncodeToString_alphabet) (simp add: encodeURL_def)

lemma pad_not_in_encodeURL: "CHR ''='' \<notin> set encodeURL" "CHR ''+'' \<notin> set encodeURL" "CHR ''/'' \<notin> set encodeURL"
  by (simp_all add: encodeURL_def)

text \<open>
  C4. Whatever the plaintext, on a key set with a first key \<open>initialHMAC\<close> is the keyed
  hash under that first key alone, in unpadded URL-safe base64: the retired keys do not
  enter the result (the same call with the primary key alone gives the same answer, and
  the answer is a function of key and data), every character of the signature is in the
  URL-safe alphabet, none is the padding character, and the length is the unpadded one.
  If writing to the hash fails, that error is the result. On the empty key set the
  result is the error \<open>NoHMACKey\<close>.
\<close>

theorem initialHMAC_primary_key:
  "initialHMAC sig (key # retired) data =
     (case sig key data of Inl err \<Rightarrow> Inl err | Inr digest \<Rightarrow> Inr (RawURLEncoding digest))
   \<and> initialHMAC sig (key # retired) data = initialHMAC sig [key] data
   \<and> initialHMAC sig [] data = Inl NoHMACKey
   \<and> set (RawURLEncoding digest) \<subseteq> set encodeURL
   \<and> CHR ''='' \<notin> set (RawURLEncoding digest)
   \<and> length (RawURLEncoding digest) = (4 * length digest + 2) div 3"
proof -
  have "CHR ''='' \<notin> set (RawURLEncoding digest)"
    using RawURLEncoding_alphabet[of digest] pad_not_in_encodeURL(1) by blast
  then show ?thesis
    by (simp add: initialHMAC_def RawURLEncoding_alphabet)
       (simp add: RawURLEncoding_def EncodeToString_length)
qed

lemma allAllowedHMACs_loop_eq:
  "\<forall>key\<in>set keys. \<exists>digest. sig key data = Inr digest \<Longrightarrow>
   \<exists>new. allAllowedHMACs_loop sig keys data sigs = Inr (sigs @ new)
       \<and> list_all2 (\<lambda>key s. initialHMAC sig [key] data = Inr s) keys new"
proof (induction keys arbitrary: sigs)
  case Nil
  then show ?case by simp
next
  case (Cons key keys)
  from Cons.prems obtain digest where d: "sig key data = Inr digest" by auto
  from Cons.prems have "\<forall>key\<in>set keys. \<exists>digest. sig key data = Inr digest" by simp
  from Cons.IH[of "sigs @ [RawURLEncoding digest]"] this obtain new where
    n: "allAllowedHMACs_loop sig keys data (sigs @ [RawURLEncoding digest])
          = Inr ((sigs @ [RawURLEncoding digest]) @ new)"
       "list_all2 (\<lambda>key s. initialHMAC sig [key] data = Inr s) keys new"
    by blast
  have "initialHMAC sig [key] data = Inr (RawURLEncoding digest)"
    by (simp add: initialHMAC_def d)
  with n d show ?case
    by (intro exI[of _ "RawURLEncoding digest # new"]) simp
qed

text \<open>
  C5. When the hash accepts the data under every key, \<open>allAllowedHMACs\<close> returns one
  signature per key, in the order of the keys, each the signature \<open>initialHMAC\<close> gives
  with that key alone; so the first one is \<open>initialHMAC\<close> of the whole set, and the
  signature under any key of the set, retired or not, is among those returned.
\<close>

theorem allAllowedHMACs_one_per_key:
  assumes "\<forall>key\<in>set keys. \<exists>digest. sig key data = Inr digest"
  shows "\<exists>sigs. allAllowedHMACs sig keys data = Inr sigs
           \<and> list_all2 (\<lambda>key s. initialHMAC sig [key] data = Inr s) keys sigs
           \<and> length sigs = length keys
           \<and> (keys \<noteq> [] \<longrightarrow> initialHMAC sig keys data = Inr (sigs ! 0))
           \<and> (\<forall>key\<in>set keys. \<forall>s. initialHMAC sig [key] data = Inr s \<longrightarrow> s \<in> set sigs)"
proof -
  from allAllowedHMACs_loop_eq[where keys=keys and sig=sig and data=data and sigs="[]"] assms
  obtain sigs where
    s: "allAllowedHMACs sig keys data = Inr sigs"
       "list_all2 (\<lambda>key s. initialHMAC sig [key] data = Inr s) keys sigs"
    by (auto simp: allAllowedHMACs_def)
  have len: "length sigs = length keys"
    using s(2) by (simp add: list_all2_lengthD)
  have first: "keys \<noteq> [] \<longrightarrow> initialHMAC sig keys data = Inr (sigs ! 0)"
  proof
    assume "keys \<noteq> []"
    then obtain key retired where k: "keys = key # retired" by (cases keys) auto
    with s(2) obtain s0 rest where r: "sigs = s0 # rest" "initialHMAC sig [key] data = Inr s0"
      by (auto simp: list_all2_Cons1)
    then show "initialHMAC sig keys data = Inr (sigs ! 0)"
      by (simp add: k initialHMAC_def)
  qed
  have mem: "\<forall>key\<in>set keys. \<forall>s. initialHMAC sig [key] data = Inr s \<longrightarrow> s \<in> set sigs"
  proof (intro ballI allI impI)
    fix key s assume "key \<in> set keys" "initialHMAC sig [key] data = Inr s"
    then obtain i where i: "i < length keys" "keys ! i = key" by (auto simp: in_set_conv_nth)
    with s(2) have "initialHMAC sig [key] data = Inr (sigs ! i)"
      by (auto simp: list_all2_conv_all_nth)
    with \<open>initialHMAC sig [key] data = Inr s\<close> have "s = sigs ! i" by simp
    with i len show "s \<in> set sigs" by simp
  qed
  from s len first mem show ?thesis by blast
qed

theorem allAllowedHMACs_one_per_key_witness:
  "allAllowedHMACs prefixMAC [''kNew'', ''kOld''] ''123456'' = Inr [''a05ldzEyMzQ1Ng'', ''a09sZDEyMzQ1Ng'']
   \<and> initialHMAC prefixMAC [''kNew'', ''kOld''] ''123456'' = Inr ''a05ldzEyMzQ1Ng''
   \<and> initialHMAC prefixMAC [''kOld''] ''123456'' = Inr ''a09sZDEyMzQ1Ng''"
proof -
  have h: "\<forall>key\<in>set [''kNew'', ''kOld'']. \<exists>digest. prefixMAC key ''123456'' = Inr digest"
    by (simp add: prefixMAC_def)
  have a: "initialHMAC prefixMAC [''kNew''] ''123456'' = Inr ''a05ldzEyMzQ1Ng''"
    by (simp add: initialHMAC_def prefixMAC_def RawURLEncoding_def encodeURL_def)
  have b: "initialHMAC prefixMAC [''kOld''] ''123456'' = Inr ''a09sZDEyMzQ1Ng''"
    by (simp add: initialHMAC_def prefixMAC_def RawURLEncoding_def encodeURL_def)
  from allAllowedHMACs_one_per_key[where keys="[''kNew'', ''kOld'']" and sig=prefixMAC and data="''123456''"] h
  obtain sigs where
    s: "allAllowedHMACs prefixMAC [''kNew'', ''kOld''] ''123456'' = Inr sigs"
       "list_all2 (\<lambda>key s. initialHMAC prefixMAC [key] ''123456'' = Inr s) [''kNew'', ''kOld''] sigs"
       "initialHMAC prefixMAC [''kNew'', ''kOld''] ''123456'' = Inr (sigs ! 0)"
    by auto
  from s(2) a b have "sigs = [''a05ldzEyMzQ1Ng'', ''a09sZDEyMzQ1Ng'']"
    by (auto simp: list_all2_Cons1)
  with s b show ?thesis by simp
qed

section \<open>Properties of the pipeline on blank columns\<close>

lemma fieldIndex_less: "fieldIndex name fs = Some i \<Longrightarrow> i < length fs"
  by (induction fs arbitrary: i) (auto split: if_splits)

lemma FieldByName_valid:
  "overRecord scope \<Longrightarrow> FieldByName scope name = Some i \<Longrightarrow> IsValid (Fields scope ! i)"
  by (simp add: overRecord_def FieldByName_def list_all_length fieldIndex_less)

lemma getFieldString_blank:
  "holdsString scope column s \<Longrightarrow> getFieldString scope column = (FieldByName scope column, s, True)"
  by (auto simp: holdsString_def getFieldString_def split: option.splits)

lemma Log_frame [simp]:
  "Fields (Log scope line) = Fields scope" "Errors (Log scope line) = Errors scope"
  "TableName (Log scope line) = TableName scope"
  by (simp_all add: Log_def)

lemma Err_frame [simp]:
  "Fields (Err scope err) = Fields scope" "Errors (Err scope err) = Errors scope @ [err]"
  "Logged (Err scope err) = Logged scope" "HasError (Err scope err)"
  by (simp_all add: Err_def HasError_def)

text \<open>
  C7. On a record whose configured column is a string column holding the empty string,
  \<open>callbackKMSEncrypt\<close> and \<open>callbackHMAC\<close> do nothing to the record: no call is made to
  the key manager or to the hash function (the list of calls is as before), and the
  fields and the errors of the scope are as before.
\<close>

theorem blank_column_is_noop:
  assumes "holdsString scope column []"
  shows "snd (callbackKMSEncrypt keyManager keyID table column (scope, tr)) = tr
       \<and> Fields (fst (callbackKMSEncrypt keyManager keyID table column (scope, tr))) = Fields scope
       \<and> Errors (fst (callbackKMSEncrypt keyManager keyID table column (scope, tr))) = Errors scope
       \<and> (\<exists>scope'. callbackHMAC hashFunc table column (scope, tr) = Inr (scope', tr)
              \<and> Fields scope' = Fields scope \<and> Errors scope' = Errors scope)"
proof -
  from assms obtain i where i: "FieldByName scope column = Some i"
    by (auto simp: holdsString_def split: option.splits)
  have g: "getFieldString scope column = (Some i, [], True)"
    using getFieldString_blank[OF assms] i by simp
  have enc: "callbackKMSEncrypt keyManager keyID table column (scope, tr) =
      (if TableName scope \<noteq> table \<or> HasError scope then (scope, tr)
       else (Log scope (SkippingBlank ''encryption'' column), tr))"
    by (simp add: callbackKMSEncrypt_def g)
  have hm: "callbackHMAC hashFunc table column (scope, tr) =
      Inr (if TableName scope \<noteq> table \<or> HasError scope then scope
           else Log scope (SkippingBlank ''HMAC'' (Name (Fields scope ! i))), tr)"
    by (simp add: callbackHMAC_def g)
  show ?thesis
    by (simp add: enc hm)
qed

theorem blank_column_is_noop_witness:
  "holdsString (smsConfig [] [] []) ''TwilioAuthToken'' []
   \<and> snd (callbackKMSEncrypt tagKM ''k1'' ''sms_configs'' ''TwilioAuthToken'' (smsConfig [] [] [], [])) = []
   \<and> Fields (fst (callbackKMSEncrypt tagKM ''k1'' ''sms_configs'' ''TwilioAuthToken'' (smsConfig [] [] [], [])))
       = Fields (smsConfig [] [] [])
   \<and> holdsString (verificationCode []) ''code'' []
   \<and> (\<exists>scope'. callbackHMAC okHash ''verification_codes'' ''code'' (verificationCode [], []) = Inr (scope', [])
         \<and> Fields scope' = Fields (verificationCode []))"
proof -
  have a: "holdsString (smsConfig [] [] []) ''TwilioAuthToken'' []"
    by (simp add: holdsString_def smsConfig_def FieldByName_def recordField_def)
  have b: "holdsString (verificationCode []) ''code'' []"
    by (simp add: holdsString_def verificationCode_def FieldByName_def recordField_def)
  from blank_column_is_noop[OF a, where keyManager=tagKM and keyID="''k1''"
         and table="''sms_configs''" and tr="[]"]
       blank_column_is_noop[OF b, where tr="[]" and hashFunc=okHash
         and table="''verification_codes''"]  a b
  show ?thesis by blast
qed

section \<open>Properties of the cache invalidator\<close>



lemma purgeKeys_absent:
  "FieldByName scope c = None \<Longrightarrow>
   purgeKeys table scope (c # post) keys = Returned (Err scope (NoColumn table c))"
  by simp


lemma purgeKeys_step:
  "overRecord scope \<Longrightarrow> readable scope c \<Longrightarrow>
   purgeKeys table scope (c # post) keys = purgeKeys table scope post (keys @ [columnText scope c])"
  by (auto simp: readable_def columnText_def Let_def FieldByName_valid split: option.splits)

lemma purgeKeys_prefix:
  "overRecord scope \<Longrightarrow> \<forall>p\<in>set pre. readable scope p \<Longrightarrow>
   purgeKeys table scope (pre @ rest) keys
     = purgeKeys table scope rest (keys @ map (columnText scope) pre)"
proof (induction pre arbitrary: keys)
  case Nil
  then show ?case by simp
next
  case (Cons p pre)
  then have "purgeKeys table scope ((p # pre) @ rest) keys
      = purgeKeys table scope (pre @ rest) (keys @ [columnText scope p])"
    using purgeKeys_step[of scope p table "pre @ rest" keys] by simp
  also have "\<dots> = purgeKeys table scope rest ((keys @ [columnText scope p]) @ map (columnText scope) pre)"
    using Cons by simp
  finally show ?case by simp
qed

lemma purgeKeys_all_readable:
  "overRecord scope \<Longrightarrow> \<forall>c\<in>set columns. readable scope c \<Longrightarrow>
   purgeKeys table scope columns keys = Collected (keys @ map (columnText scope) columns)"
  using purgeKeys_prefix[of scope columns table "[]" keys] by simp




lemma callbackPurgeCache_unfold:
  "TableName scope = table \<Longrightarrow> \<not> HasError scope \<Longrightarrow>
   callbackPurgeCache cacher namespace table columns (scope, tr) =
     (case purgeKeys table scope columns [] of
        Panicked e \<Rightarrow> Inl e
      | Returned scope' \<Rightarrow> Inr (scope', tr)
      | Collected keys \<Rightarrow>
          Inr (Log scope
                 (case Delete cacher tr \<lparr>Namespace = namespace, Key = Join keys ''|''\<rparr> of
                    Some err \<Rightarrow> FailedToDeleteCacheKey err
                  | None \<Rightarrow> ClearedCacheFor \<lparr>Namespace = namespace, Key = Join keys ''|''\<rparr>),
               tr @ [DeleteCall \<lparr>Namespace = namespace, Key = Join keys ''|''\<rparr>]))"
  by (simp add: callbackPurgeCache_def Let_def split: collected.splits option.splits)


text \<open>
  C8. Whenever \<open>callbackPurgeCache\<close> calls \<open>Delete\<close> and the cacher answers with an
  error, the callback writes the failure to the log and nothing else: the scope has no
  error after it, and its fields are as before.
\<close>

theorem delete_failure_is_logged:
  assumes "callbackPurgeCache cacher namespace table columns (scope, tr)
             = Inr (scope', tr @ [DeleteCall key])"
      and "Delete cacher tr key = Some err"
  shows "scope' = Log scope (FailedToDeleteCacheKey err)
       \<and> Errors scope' = Errors scope \<and> \<not> HasError scope' \<and> Fields scope' = Fields scope"
proof -
  from assms(1) have t: "TableName scope = table" and e: "\<not> HasError scope"
    by (auto simp: callbackPurgeCache_def split: if_splits)
  from assms(1) obtain keys where
    k: "purgeKeys table scope columns [] = Collected keys"
       "key = \<lparr>Namespace = namespace, Key = Join keys ''|''\<rparr>"
       "scope' = Log scope
                 (case Delete cacher tr \<lparr>Namespace = namespace, Key = Join keys ''|''\<rparr> of
                    Some err \<Rightarrow> FailedToDeleteCacheKey err
                  | None \<Rightarrow> ClearedCacheFor \<lparr>Namespace = namespace, Key = Join keys ''|''\<rparr>)"
    unfolding callbackPurgeCache_unfold[OF t e]
    by (auto split: collected.splits)
  from k(2,3) assms(2) have "scope' = Log scope (FailedToDeleteCacheKey err)" by simp
  with e show ?thesis by (simp add: HasError_def)
qed


lemma realm_facts:
  "TableName (realm n) = ''realms''" "\<not> HasError (realm n)" "overRecord (realm n)"
  "readable (realm n) ''id''" "FieldByName (realm n) ''email'' = None"
  "\<not> holdsNil (realm n) ''id''"
  by (simp_all add: realm_def HasError_def overRecord_def recordField_def readable_def
        holdsNil_def FieldByName_def)

lemma columnText_realm_42: "columnText (realm 42) ''id'' = ''42''"
  by (simp add: columnText_def realm_def recordField_def FieldByName_def)




theorem delete_failure_is_logged_witness:
  "callbackPurgeCache downCacher ''realms:by_id'' ''realms'' [''id''] (realm 42, []) =
     Inr (Log (realm 42) (FailedToDeleteCacheKey (External ''cache unavailable'')),
          [DeleteCall \<lparr>Namespace = ''realms:by_id'', Key = ''42''\<rparr>])
   \<and> Delete downCacher [] \<lparr>Namespace = ''realms:by_id'', Key = ''42''\<rparr>
        = Some (External ''cache unavailable'')
   \<and> \<not> HasError (Log (realm 42) (FailedToDeleteCacheKey (External ''cache unavailable'')))"
proof -
  have d: "Delete downCacher [] \<lparr>Namespace = ''realms:by_id'', Key = ''42''\<rparr>
        = Some (External ''cache unavailable'')"
    by (simp add: downCacher_def)
  have "purgeKeys ''realms'' (realm 42) [''id''] [] = Collected [''42'']"
    using purgeKeys_all_readable[OF realm_facts(3)[of 42], of "[''id'']" "''realms''" "[]"]
    by (simp add: realm_facts columnText_realm_42)
  then have c: "callbackPurgeCache downCacher ''realms:by_id'' ''realms'' [''id''] (realm 42, []) =
     Inr (Log (realm 42) (FailedToDeleteCacheKey (External ''cache unavailable'')),
          [] @ [DeleteCall \<lparr>Namespace = ''realms:by_id'', Key = ''42''\<rparr>])"
    by (simp add: callbackPurgeCache_unfold[OF realm_facts(1,2)] downCacher_def)
  from delete_failure_is_logged[OF c d] c d show ?thesis by simp
qed



section \<open>Properties of the retry wrapper\<close>

declare Do.simps [simp del]

lemma Do_Succeeded:
  "f n = Succeeded \<Longrightarrow> Do c b f n s = \<lparr>result = None, attempts = Suc n, waits = s\<rparr>"
  by (subst Do.simps) simp

lemma Do_Failed:
  "f n = Failed err \<Longrightarrow> Do c b f n s = \<lparr>result = Some err, attempts = Suc n, waits = s\<rparr>"
  by (subst Do.simps) simp

lemma Do_stop:
  "f n = Retryable err \<Longrightarrow> maxRetries b \<le> attempt b \<Longrightarrow>
   Do c b f n s = \<lparr>result = Some err, attempts = Suc n, waits = s\<rparr>"
  by (subst Do.simps) (simp add: Next_def)

lemma Do_cancelled:
  "f n = Retryable err \<Longrightarrow> attempt b < maxRetries b \<Longrightarrow> c n \<Longrightarrow>
   Do c b f n s = \<lparr>result = Some ContextDone, attempts = Suc n, waits = s\<rparr>"
  by (subst Do.simps) (simp add: Next_def)

lemma Do_again:
  "f n = Retryable err \<Longrightarrow> attempt b < maxRetries b \<Longrightarrow> \<not> c n \<Longrightarrow>
   Do c b f n s = Do c (b\<lparr>attempt := Suc (attempt b)\<rparr>) f (Suc n) (s @ [delay b])"
  by (subst Do.simps) (simp add: Next_def)

lemma Do_bounded:
  "Suc n \<le> attempts (Do c b f n s)
   \<and> attempts (Do c b f n s) \<le> Suc n + (maxRetries b - attempt b)
   \<and> waits (Do c b f n s) = s @ replicate (attempts (Do c b f n s) - Suc n) (delay b)"
proof (induction "maxRetries b - attempt b" arbitrary: b n s)
  case 0
  then have stop: "maxRetries b \<le> attempt b" by simp
  show ?case
    by (cases "f n") (simp_all add: Do_Succeeded Do_Failed Do_stop[where f=f and n=n and b=b, OF _ stop])
next
  case (Suc d)
  then have lt: "attempt b < maxRetries b" by simp
  show ?case
  proof (cases "f n")
    case Succeeded
    then show ?thesis by (simp add: Do_Succeeded)
  next
    case (Failed err)
    then show ?thesis by (simp add: Do_Failed)
  next
    case (Retryable err)
    show ?thesis
    proof (cases "c n")
      case True
      then show ?thesis by (simp add: Do_cancelled[where f=f and n=n and b=b and c=c, OF Retryable lt])
    next
      case False
      let ?b = "b\<lparr>attempt := Suc (attempt b)\<rparr>"
      have d: "d = maxRetries ?b - attempt ?b" using Suc(2) by simp
      note IH = Suc(1)[OF d, of "Suc n" "s @ [delay b]"]
      have eq: "Do c b f n s = Do c ?b f (Suc n) (s @ [delay b])"
        by (rule Do_again[where f=f and n=n and b=b and c=c, OF Retryable lt False])
      let ?r = "Do c ?b f (Suc n) (s @ [delay b])"
      from IH have lo: "Suc (Suc n) \<le> attempts ?r" by blast
      from IH have "attempts ?r \<le> Suc (Suc n) + (maxRetries ?b - attempt ?b)" by blast
      then have hi: "attempts ?r \<le> Suc n + (maxRetries b - attempt b)"
        unfolding d[symmetric] Suc(2)[symmetric] by simp
      from lo obtain k where k: "attempts ?r = Suc (Suc n) + k"
        by (metis le_Suc_ex)
      from IH have "waits ?r = (s @ [delay b]) @ replicate (attempts ?r - Suc (Suc n)) (delay ?b)"
        by blast
      then have w: "waits ?r = s @ replicate (attempts ?r - Suc n) (delay b)"
        unfolding k by simp
      from lo hi w show ?thesis
        unfolding eq by simp
    qed
  qed
qed

lemma Do_fails_at:
  "(\<forall>k<m. (\<exists>e. f (n + k) = Retryable e) \<and> \<not> c (n + k)) \<Longrightarrow> f (n + m) = Failed err \<Longrightarrow>
   attempt b + m \<le> maxRetries b \<Longrightarrow>
   Do c b f n s = \<lparr>result = Some err, attempts = Suc (n + m), waits = s @ replicate m (delay b)\<rparr>"
proof (induction m arbitrary: b n s)
  case 0
  then show ?case by (simp add: Do_Failed)
next
  case (Suc m)
  from Suc.prems(1) obtain e where e: "f n = Retryable e" and nc: "\<not> c n" by force
  from Suc.prems(3) have lt: "attempt b < maxRetries b" by simp
  let ?b = "b\<lparr>attempt := Suc (attempt b)\<rparr>"
  have 1: "\<forall>k<m. (\<exists>e. f (Suc n + k) = Retryable e) \<and> \<not> c (Suc n + k)"
    using Suc.prems(1) by (metis Suc_less_eq add_Suc_shift)
  have 2: "f (Suc n + m) = Failed err" using Suc.prems(2) by simp
  have 3: "attempt ?b + m \<le> maxRetries ?b" using Suc.prems(3) by simp
  show ?case
    unfolding Do_again[where f=f and n=n and b=b and c=c, OF e lt nc] Suc.IH[OF 1 2 3]
    by (simp add: replicate_append_same)
qed

lemma Do_exhausts:
  "(\<forall>k<m. (\<exists>e. f (n + k) = Retryable e) \<and> \<not> c (n + k)) \<Longrightarrow> f (n + m) = Retryable err \<Longrightarrow>
   attempt b + m = maxRetries b \<Longrightarrow>
   Do c b f n s = \<lparr>result = Some err, attempts = Suc (n + m), waits = s @ replicate m (delay b)\<rparr>"
proof (induction m arbitrary: b n s)
  case 0
  then show ?case by (simp add: Do_stop)
next
  case (Suc m)
  from Suc.prems(1) obtain e where e: "f n = Retryable e" and nc: "\<not> c n" by force
  from Suc.prems(3) have lt: "attempt b < maxRetries b" by simp
  let ?b = "b\<lparr>attempt := Suc (attempt b)\<rparr>"
  have 1: "\<forall>k<m. (\<exists>e. f (Suc n + k) = Retryable e) \<and> \<not> c (Suc n + k)"
    using Suc.prems(1) by (metis Suc_less_eq add_Suc_shift)
  have 2: "f (Suc n + m) = Retryable err" using Suc.prems(2) by simp
  have 3: "attempt ?b + m = maxRetries ?b" using Suc.prems(3) by simp
  show ?case
    unfolding Do_again[where f=f and n=n and b=b and c=c, OF e lt nc] Suc.IH[OF 1 2 3]
    by (simp add: replicate_append_same)
qed

lemma withRetries_Do:
  "withRetries c f = Do c \<lparr>attempt = 0, maxRetries = 30, delay = Second\<rparr> f 0 []"
  by (simp add: withRetries_def NewConstant_def Second_def WithMaxRetries_def)

text \<open>
  C9, as the code has it. \<open>withRetries\<close> runs the operation at most 31 times: once, and
  then at most 30 retries. Before each retry it waits one second, so the waits are one
  fewer than the runs and each is \<open>1 * Second\<close>. An error that is not marked retryable
  ends it at once: if run \<open>m\<close> is the first to fail that way (the runs before it being
  retryable failures with the context alive), the result is that error and there are
  \<open>m + 1\<close> runs. If all 31 runs are retryable failures, the result is the error of the
  last one.
\<close>

theorem withRetries_bounded:
  "attempts (withRetries ctxDone f) \<le> 31
   \<and> waits (withRetries ctxDone f) = replicate (attempts (withRetries ctxDone f) - 1) (1 * Second)
   \<and> (\<forall>m err. m \<le> 30 \<and> (\<forall>k<m. (\<exists>e. f k = Retryable e) \<and> \<not> ctxDone k) \<and> f m = Failed err \<longrightarrow>
         result (withRetries ctxDone f) = Some err \<and> attempts (withRetries ctxDone f) = Suc m)
   \<and> (\<forall>err. (\<forall>k<30. (\<exists>e. f k = Retryable e) \<and> \<not> ctxDone k) \<and> f 30 = Retryable err \<longrightarrow>
         result (withRetries ctxDone f) = Some err \<and> attempts (withRetries ctxDone f) = 31)"
proof (intro conjI allI impI)
  let ?b = "\<lparr>attempt = 0, maxRetries = 30, delay = Second\<rparr>"
  from Do_bounded[of 0 ctxDone ?b f "[]"]
  show "attempts (withRetries ctxDone f) \<le> 31"
    and "waits (withRetries ctxDone f) = replicate (attempts (withRetries ctxDone f) - 1) (1 * Second)"
    by (simp_all add: withRetries_Do)
next
  fix m err
  assume h: "m \<le> 30 \<and> (\<forall>k<m. (\<exists>e. f k = Retryable e) \<and> \<not> ctxDone k) \<and> f m = Failed err"
  then have "Do ctxDone \<lparr>attempt = 0, maxRetries = 30, delay = Second\<rparr> f 0 [] =
     \<lparr>result = Some err, attempts = Suc (0 + m), waits = [] @ replicate m Second\<rparr>"
    using Do_fails_at[of m f 0 ctxDone err "\<lparr>attempt = 0, maxRetries = 30, delay = Second\<rparr>" "[]"]
    by simp
  then show "result (withRetries ctxDone f) = Some err"
    and "attempts (withRetries ctxDone f) = Suc m"
    by (simp_all add: withRetries_Do)
next
  fix err
  assume h: "(\<forall>k<30. (\<exists>e. f k = Retryable e) \<and> \<not> ctxDone k) \<and> f 30 = Retryable err"
  then have "Do ctxDone \<lparr>attempt = 0, maxRetries = 30, delay = Second\<rparr> f 0 [] =
     \<lparr>result = Some err, attempts = Suc (0 + 30), waits = [] @ replicate 30 Second\<rparr>"
    using Do_exhausts[of 30 f 0 ctxDone err "\<lparr>attempt = 0, maxRetries = 30, delay = Second\<rparr>" "[]"]
    by simp
  then show "result (withRetries ctxDone f) = Some err"
    and "attempts (withRetries ctxDone f) = 31"
    by (simp_all add: withRetries_Do)
qed

theorem withRetries_bounded_witness:
  "attempts (withRetries neverDone failsAtThird) \<le> 31
   \<and> result (withRetries neverDone failsAtThird) = Some (External ''bad credentials'')
   \<and> attempts (withRetries neverDone failsAtThird) = 3
   \<and> waits (withRetries neverDone failsAtThird) = [1 * Second, 1 * Second]
   \<and> result (withRetries neverDone alwaysRetryable) = Some (External ''connection refused'')
   \<and> attempts (withRetries neverDone alwaysRetryable) = 31"
proof -
  have a: "(2::nat) \<le> 30 \<and> (\<forall>k<2. (\<exists>e. failsAtThird k = Retryable e) \<and> \<not> neverDone k)
           \<and> failsAtThird 2 = Failed (External ''bad credentials'')"
    by (simp add: failsAtThird_def neverDone_def)
  have b: "(\<forall>k<30. (\<exists>e. alwaysRetryable k = Retryable e) \<and> \<not> neverDone k)
           \<and> alwaysRetryable 30 = Retryable (External ''connection refused'')"
    by (simp add: alwaysRetryable_def neverDone_def)
  from withRetries_bounded[of neverDone failsAtThird] a
  have 1: "attempts (withRetries neverDone failsAtThird) \<le> 31"
    "result (withRetries neverDone failsAtThird) = Some (External ''bad credentials'')"
    "attempts (withRetries neverDone failsAtThird) = Suc 2"
    "waits (withRetries neverDone failsAtThird)
       = replicate (attempts (withRetries neverDone failsAtThird) - 1) (1 * Second)"
    by blast+
  from withRetries_bounded[of neverDone alwaysRetryable] b
  have 2: "result (withRetries neverDone alwaysRetryable) = Some (External ''connection refused'')"
    "attempts (withRetries neverDone alwaysRetryable) = 31"
    by blast+
  from 1 2 show ?thesis by (simp add: numeral_2_eq_2)
qed

text \<open>
  C9 as stated fails on the bound: an operation that keeps failing with a retryable
  error is run 31 times, not 30.
\<close>

theorem withRetries_thirty_one_counterexample:
  "attempts (withRetries neverDone alwaysRetryable) = 31
   \<and> \<not> attempts (withRetries neverDone alwaysRetryable) \<le> 30"
proof -
  have "Do neverDone \<lparr>attempt = 0, maxRetries = 30, delay = Second\<rparr> alwaysRetryable 0 [] =
     \<lparr>result = Some (External ''connection refused''), attempts = Suc (0 + 30),
      waits = [] @ replicate 30 Second\<rparr>"
    using Do_exhausts[where m=30 and n=0 and f=alwaysRetryable and c=neverDone
            and err="External ''connection refused''"
            and b="\<lparr>attempt = 0, maxRetries = 30, delay = Second\<rparr>" and s="[]"]
    by (simp add: alwaysRetryable_def neverDone_def)
  then show ?thesis by (simp add: withRetries_Do)
qed

section \<open>The cache columns of the encryption pipeline\<close>

lemma Field_Set_string:
  "FieldByName scope name = Some i \<Longrightarrow> IsValid (Fields scope ! i) \<Longrightarrow>
   CanAddr (Fields scope ! i) \<Longrightarrow> Interface (Fields scope ! i) = VStr old \<Longrightarrow>
   Field_Set scope (Some i) v = (None, setInterface scope i (VStr v))"
  by (simp add: Field_Set_def)

text \<open>
  A write of a non-blank string column reaches the key manager whatever the cache
  columns hold: after the cached ciphertext has been copied into the column,
  \<open>callbackKMSEncrypt\<close> does not return. \<open>callbackKMSDecrypt\<close> does the same on a read.
\<close>

lemma encrypt_reaches_key_manager:
  assumes "TableName scope = table" and "\<not> HasError scope"
      and "holdsString scope column plaintext" and "plaintext \<noteq> []"
      and "FieldByName scope column = Some i" and "CanAddr (Fields scope ! i)"
  shows "snd (callbackKMSEncrypt keyManager keyID table column (scope, tr))
           = tr @ [EncryptCall keyID plaintext]"
proof -
  have g: "getFieldString scope column = (Some i, plaintext, True)"
    using getFieldString_blank[OF assms(3)] assms(5) by simp
  have v: "IsValid (Fields scope ! i)" "Interface (Fields scope ! i) = VStr plaintext"
    using assms(3,5) by (simp_all add: holdsString_def)
  have s: "Field_Set scope (Some i) c = (None, setInterface scope i (VStr c))" for c
    using Field_Set_string[OF assms(5) v(1) assms(6) v(2)] .
  show ?thesis
    using assms(1,2,4)
    by (simp add: callbackKMSEncrypt_def g s split: prod.splits sum.splits)
qed

lemma decrypt_reaches_key_manager:
  assumes "TableName scope = table" and "\<not> HasError scope"
      and "holdsString scope column ciphertext" and "ciphertext \<noteq> []"
      and "FieldByName scope column = Some i" and "CanAddr (Fields scope ! i)"
      and "decode ciphertext = Inr ciphertextBytes"
  shows "snd (callbackKMSDecrypt keyManager decode keyID table column (scope, tr))
           = tr @ [DecryptCall keyID ciphertextBytes]"
proof -
  have g: "getFieldString scope column = (Some i, ciphertext, True)"
    using getFieldString_blank[OF assms(3)] assms(5) by simp
  have v: "IsValid (Fields scope ! i)" "Interface (Fields scope ! i) = VStr ciphertext"
    using assms(3,5) by (simp_all add: holdsString_def)
  have s: "Field_Set scope (Some i) c = (None, setInterface scope i (VStr c))" for c
    using Field_Set_string[OF assms(5) v(1) assms(6) v(2)] .
  show ?thesis
    using assms(1,2,4,7)
    by (auto simp: callbackKMSDecrypt_def g s split: prod.splits sum.splits)
qed

text \<open>
  When the plaintext is not the cached one, a failing key manager leaves the fields alone:
  the scope only gains the error.
\<close>

lemma encrypt_failure_without_reuse:
  assumes "TableName scope = table" and "\<not> HasError scope"
      and "holdsString scope column plaintext" and "plaintext \<noteq> []"
      and "\<not> holdsString scope (column @ ''PlaintextCache'') plaintext"
      and "Encrypt keyManager tr keyID plaintext = Inl err"
  shows "callbackKMSEncrypt keyManager keyID table column (scope, tr)
           = (Err scope (EncryptFailed column err), tr @ [EncryptCall keyID plaintext])"
proof -
  have g: "getFieldString scope column = (FieldByName scope column, plaintext, True)"
    using getFieldString_blank[OF assms(3)] by simp
  have n: "getFieldString scope (column @ ''PlaintextCache'') = (f, pc, True) \<Longrightarrow> pc \<noteq> plaintext"
    for f pc
    using assms(5)
    by (auto simp: getFieldString_def holdsString_def Let_def split: option.splits if_splits val.splits)
  show ?thesis
    using assms(1,2,4,6) n
    by (auto simp: callbackKMSEncrypt_def g split: prod.splits)
qed

text \<open>
  C1, on the code. The row has both cache columns populated and its plaintext is the
  cached plaintext, yet \<open>callbackKMSEncrypt\<close> calls \<open>Encrypt\<close>. Writing the same
  plaintext twice in sequence calls \<open>Encrypt\<close> twice, and with a key manager whose
  ciphertexts are never the same twice the stored ciphertext of the second write is not
  that of the first.
\<close>

theorem encrypt_cache_hit_calls_key_manager:
  "snd (callbackKMSEncrypt tagKM ''k1'' ''sms_configs'' ''TwilioAuthToken''
          (smsConfig ''secret123'' ''secret123'' ''azE6c2VjcmV0MTIz'', []))
     = [EncryptCall ''k1'' ''secret123'']
   \<and> writeToken nonceKM ''secret123'' (smsConfig [] [] [], [])
       = (smsConfig ''AGsxOnNlY3JldDEyMw'' ''secret123'' ''AGsxOnNlY3JldDEyMw'',
          [EncryptCall ''k1'' ''secret123''])
   \<and> writeToken nonceKM ''secret123'' (writeToken nonceKM ''secret123'' (smsConfig [] [] [], []))
       = (smsConfig ''AWsxOnNlY3JldDEyMw'' ''secret123'' ''AWsxOnNlY3JldDEyMw'',
          [EncryptCall ''k1'' ''secret123'', EncryptCall ''k1'' ''secret123''])"
  by code_simp

text \<open>
  C2, on the code. The row has both cache columns populated and its ciphertext is the
  cached ciphertext, yet \<open>callbackKMSDecrypt\<close> calls \<open>Decrypt\<close>; when the key manager
  is unavailable the read fails, although the cached plaintext was at hand.
\<close>

theorem decrypt_cache_hit_calls_key_manager:
  "callbackKMSDecrypt tagKM DecodeString ''k1'' ''sms_configs'' ''TwilioAuthToken''
     (smsConfig ''azE6c2VjcmV0MTIz'' ''secret123'' ''azE6c2VjcmV0MTIz'', [])
     = (smsConfig ''secret123'' ''secret123'' ''azE6c2VjcmV0MTIz'',
        [DecryptCall ''k1'' ''k1:secret123''])
   \<and> callbackKMSDecrypt downKM DecodeString ''k1'' ''sms_configs'' ''TwilioAuthToken''
     (smsConfig ''azE6c2VjcmV0MTIz'' ''secret123'' ''azE6c2VjcmV0MTIz'', [])
     = (Err (smsConfig ''secret123'' ''secret123'' ''azE6c2VjcmV0MTIz'')
          (DecryptFailed ''TwilioAuthToken'' (External ''key manager unavailable'')),
        [DecryptCall ''k1'' ''k1:secret123''])"
  by code_simp

text \<open>
  C3, on the code. The plaintext is not blank and \<open>Encrypt\<close> fails: the scope gets the
  error, but the real column has already been overwritten with the cached ciphertext,
  because the plaintext was the cached one.
\<close>

theorem encrypt_failure_changes_real_column:
  "callbackKMSEncrypt downKM ''k1'' ''sms_configs'' ''TwilioAuthToken''
     (smsConfig ''secret123'' ''secret123'' ''b2xkLWNpcGhlcnRleHQ'', [])
     = (Err (smsConfig ''b2xkLWNpcGhlcnRleHQ'' ''secret123'' ''b2xkLWNpcGhlcnRleHQ'')
          (EncryptFailed ''TwilioAuthToken'' (External ''key manager unavailable'')),
        [EncryptCall ''k1'' ''secret123''])
   \<and> Fields (smsConfig ''b2xkLWNpcGhlcnRleHQ'' ''secret123'' ''b2xkLWNpcGhlcnRleHQ'')
       \<noteq> Fields (smsConfig ''secret123'' ''secret123'' ''b2xkLWNpcGhlcnRleHQ'')"
  by code_simp

end
